theory Spec2Isabelle
  imports Complex_Main "HOL-Library.Word"
begin

section \<open>Data model of \<open>audio_streamer.py\<close>\<close>

text \<open>
  The class \<open>AudioStreamer\<close> is embedded as a record of its attributes together with the
  parts of its environment that its methods act on: the output streams it has opened on
  the audio device, the scratch files it has created, and the lines it has printed.

  Three threads act on one \<open>AudioStreamer\<close>: the caller (\<open>start\<close>, \<open>stop\<close>,
  \<open>add_audio_chunk\<close>), the worker thread (\<open>_audio_processing_worker\<close>) and the audio
  device's callback thread (\<open>audio_callback\<close>). They are modelled as an interleaving of
  atomic events. One iteration of the worker loop is one event: the queue has its own
  lock, the buffer is only touched under \<open>buffer_lock\<close>, and an iteration touches nothing
  else that another thread writes, except \<open>playing\<close>, which it reads once at the loop test.

  Samples in the buffer are Python floats (float64), modelled as the real numbers they
  denote. On the raw-PCM path the intermediate float32 array is exact, since a 16-bit
  integer divided by \<open>2 ^ 15\<close> is representable in float32. The output array of the
  callback has dtype float32: the conversion that numpy applies on storing into it is a
  parameter of the callback.
\<close>

type_synonym byte = "8 word"
type_synonym sample = real

text \<open>What \<open>add_audio_chunk\<close> is handed: a \<open>bytes\<close> object, or \<open>None\<close> (the worker tests for it).\<close>

datatype item = PyNone | Bytes "byte list"

text \<open>
  The exceptions that occur: \<open>queue.Full\<close>, \<open>queue.Empty\<close>, the error of
  \<open>soundfile.read\<close> on bytes it cannot parse, and the \<open>ValueError\<close> of \<open>np.frombuffer\<close>.
\<close>

datatype error = QueueFull | QueueEmpty | DecodeError | PCMError

text \<open>The \<open>print\<close> calls of the module, one constructor per message.\<close>

datatype report =
    AudioStatus                 \<comment> \<open>"Audio status: ..."\<close>
  | StartedStreaming nat        \<comment> \<open>"Started streaming audio output at ...Hz"\<close>
  | AddedChunk nat nat          \<comment> \<open>"Added audio chunk: ... samples at ...Hz to buffer"\<close>
  | DecodeFailed error          \<comment> \<open>"Failed to decode audio chunk: ..."\<close>
  | AddedRawPCM nat             \<comment> \<open>"Added raw PCM chunk: ... samples to buffer"\<close>
  | ProcessFailed error         \<comment> \<open>"Failed to process audio chunk: ..."\<close>
  | WorkerError error           \<comment> \<open>"Error in audio processing worker: ..."\<close>
  | QueueFullDropping           \<comment> \<open>"Audio queue is full, dropping chunk"\<close>

text \<open>
  \<open>queue.Queue\<close>: a FIFO with a \<open>maxsize\<close>; \<open>maxsize \<le> 0\<close> means unbounded.
  \<open>put(x, block=False)\<close> raises \<open>Full\<close> when \<open>maxsize > 0\<close> and the queue holds
  \<open>maxsize\<close> items. \<open>get(timeout=0.1)\<close> raises \<open>Empty\<close> when no item arrives in time:
  here, when the queue is empty at the moment of the event.
\<close>

record py_queue =
  maxsize :: int
  items :: "item list"

definition Queue :: py_queue where
  "Queue = \<lparr>maxsize = 0, items = []\<rparr>"

definition full :: "py_queue \<Rightarrow> bool" where
  "full q = (0 < maxsize q \<and> maxsize q \<le> int (length (items q)))"

definition put_nowait :: "py_queue \<Rightarrow> item \<Rightarrow> error + py_queue" where
  "put_nowait q x = (if full q then Inl QueueFull else Inr (q\<lparr>items := items q @ [x]\<rparr>))"

definition get_timeout :: "py_queue \<Rightarrow> error + item \<times> py_queue" where
  "get_timeout q =
     (case items q of
        [] \<Rightarrow> Inl QueueEmpty
      | x # xs \<Rightarrow> Inr (x, q\<lparr>items := xs\<rparr>))"

text \<open>
  An output stream of the audio device (\<open>sd.OutputStream\<close>). \<open>stop()\<close> and \<open>close()\<close>
  are called with their default \<open>ignore_errors=True\<close>, so they raise nothing, also on a
  stream that is closed already.
\<close>

datatype stream_status = Active | Inactive | Closed

definition stream_stop :: "stream_status \<Rightarrow> stream_status" where
  "stream_stop st = (if st = Active then Inactive else st)"

definition stream_close :: "stream_status \<Rightarrow> stream_status" where
  "stream_close st = Closed"

record audio_streamer =
  audio_queue :: py_queue
  worker_alive :: bool              \<comment> \<open>\<open>audio_thread is not None and audio_thread.is_alive()\<close>\<close>
  playing :: bool
  sample_rate :: nat
  audio_stream :: "nat option"      \<comment> \<open>index into \<open>streams\<close>, \<open>None\<close> before the first start\<close>
  audio_data_buffer :: "sample list"
  streams :: "stream_status list"   \<comment> \<open>every output stream opened so far\<close>
  temp_files :: "nat list"          \<comment> \<open>names of the scratch files that exist\<close>
  temp_counter :: nat               \<comment> \<open>the next fresh scratch file name\<close>
  printed :: "report list"

text \<open>\<open>__init__\<close>\<close>

definition AudioStreamer :: "nat \<Rightarrow> audio_streamer" where
  "AudioStreamer rate =
     \<lparr>audio_queue = Queue, worker_alive = False, playing = False, sample_rate = rate,
      audio_stream = None, audio_data_buffer = [], streams = [], temp_files = [],
      temp_counter = 0, printed = []\<rparr>"

section \<open>The caller's operations\<close>

text \<open>
  \<open>_start_streaming_output\<close>: opens a new output stream, keeps it in \<open>audio_stream\<close>
  (the stream held there before is neither stopped nor closed) and starts it.
\<close>

definition start_streaming_output :: "audio_streamer \<Rightarrow> audio_streamer" where
  "start_streaming_output s =
     s\<lparr>streams := streams s @ [Active],
       audio_stream := Some (length (streams s)),
       printed := printed s @ [StartedStreaming (sample_rate s)]\<rparr>"

definition start :: "audio_streamer \<Rightarrow> error + audio_streamer" where
  "start s =
     (if \<not> worker_alive s
      then Inr (start_streaming_output (s\<lparr>playing := True, worker_alive := True\<rparr>))
      else Inr s)"

text \<open>
  \<open>stop\<close>. The final \<open>join(timeout=1.0)\<close> only waits: the worker leaves its loop by its
  own next loop test, which is an event of the worker.
\<close>

definition stop :: "audio_streamer \<Rightarrow> error + audio_streamer" where
  "stop s =
     (let s1 = s\<lparr>playing := False\<rparr>
      in case audio_stream s1 of
           None \<Rightarrow> Inr s1
         | Some i \<Rightarrow>
             Inr (s1\<lparr>streams := (streams s1)[i := stream_close (stream_stop (streams s1 ! i))]\<rparr>))"

definition add_audio_chunk :: "item \<Rightarrow> audio_streamer \<Rightarrow> error + audio_streamer" where
  "add_audio_chunk audio_data s =
     (case put_nowait (audio_queue s) audio_data of
        Inr q \<Rightarrow> Inr (s\<lparr>audio_queue := q\<rparr>)
      | Inl QueueFull \<Rightarrow> Inr (s\<lparr>printed := printed s @ [QueueFullDropping]\<rparr>)
      | Inl e \<Rightarrow> Inl e)"

section \<open>The output callback\<close>

text \<open>
  \<open>audio_callback(outdata, frames, time, status)\<close>. The device hands over \<open>outdata\<close> with
  \<open>frames\<close> rows and dtype float32, so the result is the new content of \<open>outdata\<close> as a
  list of length \<open>frames\<close>. Every value stored into it, the samples as well as the
  \<open>0\<close> of the padding, is converted by numpy to float32: \<open>store\<close>, a parameter, is that
  conversion. The second component is the local \<open>chunk\<close>: the samples taken out of the
  buffer, as they were in it.
\<close>

definition audio_callback ::
  "(sample \<Rightarrow> 'o) \<Rightarrow> nat \<Rightarrow> bool \<Rightarrow> audio_streamer \<Rightarrow> 'o list \<times> sample list \<times> audio_streamer" where
  "audio_callback store frames status s =
     (let s1 = (if status then s\<lparr>printed := printed s @ [AudioStatus]\<rparr> else s);
          buf = audio_data_buffer s1
      in if frames \<le> length buf
         then (map store (take frames buf), take frames buf,
               s1\<lparr>audio_data_buffer := drop frames buf\<rparr>)
         else if 0 < length buf
         then (map store buf @ replicate (frames - length buf) (store 0), buf,
               s1\<lparr>audio_data_buffer := []\<rparr>)
         else (replicate frames (store 0), [], s1))"

text \<open>
  The conversion of a float64 value to float32 (IEEE 754 binary32, round to nearest, ties
  to even), for concrete runs. The unit in the last place of the result is \<open>2 ^ q\<close> for
  the least \<open>q\<close> from \<open>-149\<close> (subnormal numbers) with \<open>\<bar>x\<bar> < 2 ^ (q + 24)\<close>; a value
  that rounds to \<open>2 ^ 128\<close> or beyond becomes an infinity, here \<open>None\<close>.
\<close>

definition round_half_even :: "real \<Rightarrow> int" where
  "round_half_even y =
     (let f = \<lfloor>y\<rfloor>; d = y - of_int f
      in if d < 1 / 2 then f else if 1 / 2 < d then f + 1 else if even f then f else f + 1)"

definition float32 :: "real \<Rightarrow> real option" where
  "float32 x =
     (case find (\<lambda>q. \<bar>x\<bar> < 2 powi (q + 24)) [- 149..104] of
        None \<Rightarrow> None
      | Some q \<Rightarrow>
          (let y = of_int (round_half_even (x / 2 powi q)) * 2 powi q
           in if \<bar>y\<bar> < 2 powi 128 then Some y else None))"

section \<open>The decode worker\<close>

text \<open>
  \<open>np.frombuffer(audio_data, dtype=np.int16)\<close>: fails when the length is not a multiple of
  the item size, else views the bytes as 16-bit integers in the machine's byte order
  (little-endian on the platforms numpy is used on: low byte first).
\<close>

fun int16_view :: "byte list \<Rightarrow> 16 word list" where
  "int16_view (lo # hi # bs) = word_cat hi lo # int16_view bs"
| "int16_view _ = []"

definition frombuffer_int16 :: "byte list \<Rightarrow> error + 16 word list" where
  "frombuffer_int16 bs =
     (if length bs mod 2 \<noteq> 0 then Inl PCMError else Inr (int16_view bs))"

text \<open>\<open>np.frombuffer(audio_data, dtype=np.int16).astype(np.float32) / 32768.0\<close>\<close>

definition decode_raw_pcm :: "byte list \<Rightarrow> error + sample list" where
  "decode_raw_pcm bs =
     (case frombuffer_int16 bs of
        Inl e \<Rightarrow> Inl e
      | Inr ws \<Rightarrow> Inr (map (\<lambda>w. real_of_int (sint w) / 32768) ws))"

text \<open>
  \<open>soundfile.read\<close> is a library outside the repository: it is a parameter, a function from
  the bytes of the file to an error or the (one-channel) samples and the sample rate.
\<close>

type_synonym decoder = "byte list \<Rightarrow> error + sample list \<times> nat"

text \<open>
  The inner \<open>try\<close> of the worker for one chunk: write the scratch file, read it with
  soundfile, unlink it, extend the buffer; on any exception of these, fall back to raw PCM.
\<close>

definition process_chunk :: "decoder \<Rightarrow> byte list \<Rightarrow> audio_streamer \<Rightarrow> audio_streamer" where
  "process_chunk sf_read audio_data s =
     (let name = temp_counter s;
          s1 = s\<lparr>temp_files := temp_files s @ [name], temp_counter := Suc name\<rparr>
      in case sf_read audio_data of
           Inr (audio_array, actual_sample_rate) \<Rightarrow>
             s1\<lparr>temp_files := removeAll name (temp_files s1),
                audio_data_buffer := audio_data_buffer s1 @ audio_array,
                printed := printed s1 @ [AddedChunk (length audio_array) actual_sample_rate]\<rparr>
         | Inl decode_error \<Rightarrow>
             (let s2 = s1\<lparr>printed := printed s1 @ [DecodeFailed decode_error]\<rparr>
              in case decode_raw_pcm audio_data of
                   Inr audio_array \<Rightarrow>
                     s2\<lparr>audio_data_buffer := audio_data_buffer s2 @ audio_array,
                        printed := printed s2 @ [AddedRawPCM (length audio_array)]\<rparr>
                 | Inl pcm_error \<Rightarrow>
                     s2\<lparr>printed := printed s2 @ [ProcessFailed pcm_error]\<rparr>))"

text \<open>
  The body of the outer \<open>try\<close>: \<open>Inl\<close> is an exception that reaches the outer handlers,
  the boolean of a normal result says whether the body ran into \<open>break\<close>.
\<close>

definition worker_body :: "decoder \<Rightarrow> audio_streamer \<Rightarrow> error + bool \<times> audio_streamer" where
  "worker_body sf_read s =
     (case get_timeout (audio_queue s) of
        Inl e \<Rightarrow> Inl e
      | Inr (audio_data, q) \<Rightarrow>
          (case audio_data of
             PyNone \<Rightarrow> Inr (True, s\<lparr>audio_queue := q\<rparr>)
           | Bytes b \<Rightarrow> Inr (False, process_chunk sf_read b (s\<lparr>audio_queue := q\<rparr>))))"

text \<open>
  One pass of \<open>while self.playing\<close>, from the loop test to the next loop test. Leaving the
  loop ends the thread. \<open>Inl\<close> would be an exception that escapes the loop.
\<close>

definition worker_iteration :: "decoder \<Rightarrow> audio_streamer \<Rightarrow> error + audio_streamer" where
  "worker_iteration sf_read s =
     (if \<not> playing s then Inr (s\<lparr>worker_alive := False\<rparr>)
      else case worker_body sf_read s of
             Inl QueueEmpty \<Rightarrow> Inr s
           | Inl e \<Rightarrow> Inr (s\<lparr>printed := printed s @ [WorkerError e]\<rparr>)
           | Inr (True, s') \<Rightarrow> Inr (s'\<lparr>worker_alive := False\<rparr>)
           | Inr (False, s') \<Rightarrow> Inr s')"

section \<open>Interleavings\<close>

datatype event =
    Start
  | Stop
  | AddChunk item
  | WorkerIter               \<comment> \<open>the worker thread runs one iteration, if it is alive\<close>
  | Callback nat nat bool    \<comment> \<open>stream \<open>i\<close> asks for \<open>frames\<close> samples, if it is active\<close>

definition returned :: "audio_streamer \<Rightarrow> error + audio_streamer \<Rightarrow> audio_streamer" where
  "returned s r = (case r of Inr s' \<Rightarrow> s' | Inl e \<Rightarrow> s)"

text \<open>One event: the chunks drained by it (one for a callback, none otherwise) and the new state.\<close>

fun step ::
  "decoder \<Rightarrow> (sample \<Rightarrow> 'o) \<Rightarrow> event \<Rightarrow> audio_streamer \<Rightarrow> sample list list \<times> audio_streamer"
  where
  "step sf_read store Start s = ([], returned s (start s))"
| "step sf_read store Stop s = ([], returned s (stop s))"
| "step sf_read store (AddChunk x) s = ([], returned s (add_audio_chunk x s))"
| "step sf_read store WorkerIter s =
     ([], if worker_alive s then returned s (worker_iteration sf_read s) else s)"
| "step sf_read store (Callback i frames status) s =
     (if i < length (streams s) \<and> streams s ! i = Active
      then (case audio_callback store frames status s of (outdata, chunk, s') \<Rightarrow> ([chunk], s'))
      else ([], s))"

fun run ::
  "decoder \<Rightarrow> (sample \<Rightarrow> 'o) \<Rightarrow> event list \<Rightarrow> audio_streamer \<Rightarrow>
     sample list list \<times> audio_streamer"
  where
  "run sf_read store [] s = ([], s)"
| "run sf_read store (e # es) s =
     (case step sf_read store e s of
        (ds, s') \<Rightarrow> (case run sf_read store es s' of (ds', s'') \<Rightarrow> (ds @ ds', s'')))"

section \<open>Notions of the specification\<close>

text \<open>
  The specification's reading of raw PCM: two bytes, low byte first, as a signed 16-bit
  integer (two's complement).
\<close>

definition le_int16 :: "byte \<Rightarrow> byte \<Rightarrow> int" where
  "le_int16 lo hi =
     (let u = int (unat lo) + 256 * int (unat hi) in if u < 32768 then u else u - 65536)"

text \<open>
  The samples a queued item stands for: those of the container decode, else those of the
  raw-PCM fallback, and none for an item that fails both; none for \<open>None\<close>.
\<close>

definition decoded :: "decoder \<Rightarrow> item \<Rightarrow> sample list" where
  "decoded sf_read x =
     (case x of
        PyNone \<Rightarrow> []
      | Bytes b \<Rightarrow>
          (case sf_read b of
             Inr (xs, rate) \<Rightarrow> xs
           | Inl e \<Rightarrow> (case decode_raw_pcm b of Inr xs \<Rightarrow> xs | Inl e' \<Rightarrow> [])))"

definition pending :: "decoder \<Rightarrow> audio_streamer \<Rightarrow> sample list" where
  "pending sf_read s = concat (map (decoded sf_read) (items (audio_queue s)))"

fun submitted :: "event list \<Rightarrow> item list" where
  "submitted [] = []"
| "submitted (AddChunk x # es) = x # submitted es"
| "submitted (e # es) = submitted es"

text \<open>
  The stream state of the specification is the flag \<open>playing\<close>: \<open>start\<close> sets it,
  \<open>stop\<close> clears it, and the worker iterates while it is set.
\<close>

definition Running :: "audio_streamer \<Rightarrow> bool" where
  "Running s = playing s"

definition Stopped :: "audio_streamer \<Rightarrow> bool" where
  "Stopped s = (\<not> playing s)"

text \<open>What holds in every state that the events reach from \<open>__init__\<close>.\<close>

definition invar :: "audio_streamer \<Rightarrow> bool" where
  "invar s =
     (maxsize (audio_queue s) = 0 \<and>
      (case audio_stream s of
         None \<Rightarrow> \<not> playing s
       | Some i \<Rightarrow> i < length (streams s) \<and>
                   streams s ! i = (if playing s then Active else Closed)))"

text \<open>
  While only chunks are submitted, a playing stream has a live worker and the queue holds
  no \<open>None\<close>.
\<close>

definition chunks_only :: "audio_streamer \<Rightarrow> bool" where
  "chunks_only s = ((playing s \<longrightarrow> worker_alive s) \<and> PyNone \<notin> set (items (audio_queue s)))"

text \<open>A decoder that parses nothing, for concrete runs.\<close>

definition reject_all :: decoder where
  "reject_all bs = Inl DecodeError"

section \<open>The raw-PCM fallback\<close>

lemma uint_byte_bound: "uint (b :: byte) < 256"
  using uint_lt2p [of b] by simp

lemma uint_word_cat_bytes:
  "uint (word_cat (hi::byte) (lo::byte) :: 16 word) = uint lo + 256 * uint hi"
proof -
  have lo: "0 \<le> uint lo" "uint lo < 256" and hi: "0 \<le> uint hi" "uint hi < 256"
    by (simp_all add: uint_byte_bound)
  have "uint (word_cat hi lo :: 16 word) = concat_bit 8 (uint lo) (uint hi) mod 2 ^ 16"
    by (simp add: word_cat_eq' uint_word_of_int)
  also have "concat_bit 8 (uint lo) (uint hi) = uint lo + 256 * uint hi"
    using lo by (simp add: concat_bit_eq take_bit_int_eq_self push_bit_eq_mult)
  also have "(uint lo + 256 * uint hi) mod 2 ^ 16 = uint lo + 256 * uint hi"
    using lo hi by simp
  finally show ?thesis .
qed

lemma sint_of_uint16:
  "sint (w :: 16 word) = (if uint w < 32768 then uint w else uint w - 65536)"
proof -
  have b: "0 \<le> uint w" "uint w < 65536"
    using uint_lt2p [of w] by simp_all
  have s: "sint w = (uint w + 32768) mod 65536 - 32768"
    by (simp add: sint_uint signed_take_bit_eq_take_bit_shift take_bit_eq_mod)
  show ?thesis
  proof (cases "uint w < 32768")
    case True
    then have "(uint w + 32768) mod 65536 = uint w + 32768"
      using b by (intro mod_pos_pos_trivial) simp_all
    with s True show ?thesis by simp
  next
    case False
    have "uint w + 32768 = (uint w - 32768) + 65536"
      by arith
    then have "(uint w + 32768) mod 65536 = ((uint w - 32768) + 65536) mod 65536"
      by (rule arg_cong)
    also have "\<dots> = (uint w - 32768) mod 65536"
      by (rule mod_add_self2)
    also have "\<dots> = uint w - 32768"
      using b False by (intro mod_pos_pos_trivial) simp_all
    finally show ?thesis using s False by simp
  qed
qed

lemma sint_word_cat: "sint (word_cat hi lo :: 16 word) = le_int16 lo hi"
  by (simp add: sint_of_uint16 uint_word_cat_bytes le_int16_def Let_def)

lemma signed_word_cat:
  "(signed (word_cat hi lo :: 16 word) :: real) = real_of_int (le_int16 lo hi)"
proof -
  have "(signed (word_cat hi lo :: 16 word) :: real) = of_int (sint (word_cat hi lo :: 16 word))"
    by (rule of_int_sint [symmetric])
  then show ?thesis
    by (simp only: sint_word_cat)
qed

lemma int16_view_length: "length (int16_view bs) = length bs div 2"
  by (induction bs rule: int16_view.induct) simp_all

lemma int16_view_nth:
  "i < length bs div 2 \<Longrightarrow> int16_view bs ! i = word_cat (bs ! (2 * i + 1)) (bs ! (2 * i))"
proof (induction bs arbitrary: i rule: int16_view.induct)
  case (1 lo hi bs)
  then show ?case by (cases i) simp_all
qed simp_all

text \<open>
  C6. The raw-PCM fallback on a byte sequence of even length \<open>2k\<close> returns exactly \<open>k\<close>
  samples, the \<open>i\<close>-th being the little-endian signed 16-bit integer of bytes \<open>2i\<close> and
  \<open>2i+1\<close> divided by 32768; it fails if and only if the length is not a multiple of 2,
  and then with the PCM error.
\<close>

theorem decode_raw_pcm_correct:
  "(length bs = 2 * k \<longrightarrow>
      (\<exists>xs. decode_raw_pcm bs = Inr xs \<and> length xs = k \<and>
         (\<forall>i<k. xs ! i = real_of_int (le_int16 (bs ! (2 * i)) (bs ! (2 * i + 1))) / 32768)))
   \<and> ((\<exists>e. decode_raw_pcm bs = Inl e) \<longleftrightarrow> length bs mod 2 \<noteq> 0)
   \<and> (length bs mod 2 \<noteq> 0 \<longrightarrow> decode_raw_pcm bs = Inl PCMError)"
proof (intro conjI impI)
  assume len: "length bs = 2 * k"
  let ?xs = "map (\<lambda>w. real_of_int (sint w) / 32768) (int16_view bs)"
  have "decode_raw_pcm bs = Inr ?xs"
    using len by (simp add: decode_raw_pcm_def frombuffer_int16_def)
  moreover have "length ?xs = k"
    using len by (simp add: int16_view_length)
  moreover have "\<forall>i<k. ?xs ! i = real_of_int (le_int16 (bs ! (2 * i)) (bs ! (2 * i + 1))) / 32768"
    using len by (simp add: int16_view_length int16_view_nth signed_word_cat)
  ultimately show "\<exists>xs. decode_raw_pcm bs = Inr xs \<and> length xs = k \<and>
         (\<forall>i<k. xs ! i = real_of_int (le_int16 (bs ! (2 * i)) (bs ! (2 * i + 1))) / 32768)"
    by blast
next
  show "(\<exists>e. decode_raw_pcm bs = Inl e) \<longleftrightarrow> length bs mod 2 \<noteq> 0"
    by (simp add: decode_raw_pcm_def frombuffer_int16_def)
next
  assume "length bs mod 2 \<noteq> 0"
  then show "decode_raw_pcm bs = Inl PCMError"
    by (simp add: decode_raw_pcm_def frombuffer_int16_def)
qed

theorem decode_raw_pcm_correct_witness:
  "decode_raw_pcm [0, 128, 255, 127, 1, 0] = Inr [- 1, 32767 / 32768, 1 / 32768]
   \<and> decode_raw_pcm [0, 128, 255] = Inl PCMError"
  using decode_raw_pcm_correct [where bs = "[0, 128, 255, 127, 1, 0]" and k = 3]
    decode_raw_pcm_correct [where bs = "[0, 128, 255]" and k = 0]
  by (simp add: decode_raw_pcm_def frombuffer_int16_def signed_word_cat le_int16_def)

section \<open>Properties of the output callback\<close>

lemma float32_examples:
  "float32 0 = Some 0" "float32 (1 / 2) = Some (1 / 2)" "float32 (- 1) = Some (- 1)"
  "float32 (1 / 4) = Some (1 / 4)"
  "float32 (214748365 / 2147483648) = Some (13421773 / 134217728)"
  by code_simp+

text \<open>
  C2, as amended. One invocation of the output callback, for every buffer and every
  number of frames: with at least \<open>frames\<close> samples buffered, exactly \<open>frames\<close> samples
  leave the head of the buffer and their float32 conversions are the output (2000
  buffered and 1024 requested leave 976); with \<open>0 < k < frames\<close> samples buffered, the
  output starts with the float32 conversions of these \<open>k\<close> samples, the other
  \<open>frames - k\<close> are the float32 zero, and the buffer is empty afterwards; with an empty
  buffer the output is \<open>frames\<close> times the float32 zero.
\<close>

theorem audio_callback_output:
  "case audio_callback store frames status s of (outdata, chunk, s') \<Rightarrow>
     (frames \<le> length (audio_data_buffer s) \<longrightarrow>
        chunk = take frames (audio_data_buffer s) \<and> outdata = map store chunk \<and>
        length outdata = frames \<and>
        audio_data_buffer s' = drop frames (audio_data_buffer s) \<and>
        length (audio_data_buffer s') = length (audio_data_buffer s) - frames)
   \<and> (length (audio_data_buffer s) = 2000 \<and> frames = 1024 \<longrightarrow>
        length chunk = 1024 \<and> length (audio_data_buffer s') = 976)
   \<and> (0 < length (audio_data_buffer s) \<and> length (audio_data_buffer s) < frames \<longrightarrow>
        chunk = audio_data_buffer s \<and>
        take (length chunk) outdata = map store chunk \<and>
        drop (length chunk) outdata = replicate (frames - length chunk) (store 0) \<and>
        length outdata = frames \<and>
        audio_data_buffer s' = [])
   \<and> (audio_data_buffer s = [] \<longrightarrow>
        outdata = replicate frames (store 0) \<and> chunk = [] \<and> audio_data_buffer s' = [])"
  by (auto simp: audio_callback_def Let_def)

theorem audio_callback_output_witness:
  "audio_callback float32 2 False ((AudioStreamer 48000)\<lparr>audio_data_buffer := [1 / 2, - 1, 1 / 4]\<rparr>)
     = ([Some (1 / 2), Some (- 1)], [1 / 2, - 1],
        (AudioStreamer 48000)\<lparr>audio_data_buffer := [1 / 4]\<rparr>)
   \<and> audio_callback float32 4 False ((AudioStreamer 48000)\<lparr>audio_data_buffer := [1 / 2, - 1, 1 / 4]\<rparr>)
     = ([Some (1 / 2), Some (- 1), Some (1 / 4), Some 0], [1 / 2, - 1, 1 / 4],
        (AudioStreamer 48000)\<lparr>audio_data_buffer := []\<rparr>)
   \<and> audio_callback float32 3 False (AudioStreamer 48000)
     = ([Some 0, Some 0, Some 0], [], AudioStreamer 48000)
   \<and> length (audio_data_buffer (snd (snd (audio_callback float32 1024 False
        ((AudioStreamer 48000)\<lparr>audio_data_buffer := replicate 2000 (1 / 2)\<rparr>))))) = 976"
  using
    audio_callback_output [where store = float32 and frames = 2 and status = False
      and s = "(AudioStreamer 48000)\<lparr>audio_data_buffer := [1 / 2, - 1, 1 / 4]\<rparr>"]
    audio_callback_output [where store = float32 and frames = 4 and status = False
      and s = "(AudioStreamer 48000)\<lparr>audio_data_buffer := [1 / 2, - 1, 1 / 4]\<rparr>"]
    audio_callback_output [where store = float32 and frames = 3 and status = False
      and s = "AudioStreamer 48000"]
    audio_callback_output [where store = float32 and frames = 1024 and status = False
      and s = "(AudioStreamer 48000)\<lparr>audio_data_buffer := replicate 2000 (1 / 2)\<rparr>"]
  by (simp add: audio_callback_def AudioStreamer_def numeral_3_eq_3 float32_examples)

text \<open>
  The claim C2 as stated has the output equal to the drained samples. The buffer holds
  float64 values and the output is float32: the sample \<open>214748365 / 2 ^ 31\<close>, which is
  what soundfile reads from the 32-bit PCM sample 214748365, is drained as it is and
  written as the nearest float32, \<open>13421773 / 2 ^ 27\<close>, a different number.
\<close>

theorem output_is_rounded_to_float32:
  "fst (audio_callback float32 1 False
         ((AudioStreamer 48000)\<lparr>audio_data_buffer := [214748365 / 2147483648]\<rparr>))
     = [Some (13421773 / 134217728)]
   \<and> fst (snd (audio_callback float32 1 False
         ((AudioStreamer 48000)\<lparr>audio_data_buffer := [214748365 / 2147483648]\<rparr>)))
     = [214748365 / 2147483648]
   \<and> (13421773 / 134217728 :: real) \<noteq> 214748365 / 2147483648"
  by (simp add: audio_callback_def AudioStreamer_def float32_examples)

text \<open>
  C8. Draining inside the callback, for every \<open>n\<close>: the callback is a total function of
  the state it finds (it waits for nothing), the samples it takes out are never more than
  \<open>n\<close>, they are the first \<open>n\<close> of the buffer, so all of the buffer (possibly none) when
  fewer than \<open>n\<close> are there, and what is taken out followed by what stays is the buffer
  as it was.
\<close>

theorem drain_bounded:
  "case audio_callback store n status s of (outdata, chunk, s') \<Rightarrow>
       length chunk \<le> n
     \<and> chunk = take n (audio_data_buffer s)
     \<and> (length (audio_data_buffer s) < n \<longrightarrow> chunk = audio_data_buffer s)
     \<and> audio_data_buffer s = chunk @ audio_data_buffer s'"
  by (auto simp: audio_callback_def Let_def)

theorem drain_bounded_witness:
  "fst (snd (audio_callback float32 5 False
       ((AudioStreamer 48000)\<lparr>audio_data_buffer := [1, 2, 3]\<rparr>))) = [1, 2, 3]
   \<and> fst (snd (audio_callback float32 5 False (AudioStreamer 48000))) = []"
  using
    drain_bounded [where store = float32 and n = 5 and status = False
      and s = "(AudioStreamer 48000)\<lparr>audio_data_buffer := [1, 2, 3]\<rparr>"]
    drain_bounded [where store = float32 and n = 5 and status = False
      and s = "AudioStreamer 48000"]
  by (simp add: audio_callback_def AudioStreamer_def)

section \<open>Submitting a chunk\<close>

text \<open>Unfolding the operations on a concrete run.\<close>

lemmas exec_defs =
  AudioStreamer_def Queue_def start_def start_streaming_output_def stop_def returned_def
  add_audio_chunk_def put_nowait_def full_def worker_iteration_def worker_body_def
  get_timeout_def process_chunk_def reject_all_def Let_def decode_raw_pcm_def
  frombuffer_int16_def stream_stop_def stream_close_def audio_callback_def

text \<open>
  C5. \<open>add_audio_chunk\<close> does not wait and raises nothing: it always returns. On a queue
  at capacity it leaves the queue as it is and prints that the chunk is dropped, which is
  the only thing it ever prints; otherwise the chunk goes to the tail of the queue.
\<close>

theorem add_audio_chunk_never_raises:
  "(\<exists>s'. add_audio_chunk x s = Inr s')
   \<and> (full (audio_queue s) \<longrightarrow>
        add_audio_chunk x s = Inr (s\<lparr>printed := printed s @ [QueueFullDropping]\<rparr>))
   \<and> (\<not> full (audio_queue s) \<longrightarrow>
        add_audio_chunk x s =
          Inr (s\<lparr>audio_queue := (audio_queue s)\<lparr>items := items (audio_queue s) @ [x]\<rparr>\<rparr>))"
  by (simp add: add_audio_chunk_def put_nowait_def)

theorem add_audio_chunk_never_raises_witness:
  "add_audio_chunk (Bytes [7])
     ((AudioStreamer 48000)\<lparr>audio_queue := \<lparr>maxsize = 1, items = [Bytes [1]]\<rparr>\<rparr>)
     = Inr ((AudioStreamer 48000)\<lparr>audio_queue := \<lparr>maxsize = 1, items = [Bytes [1]]\<rparr>,
                                   printed := [QueueFullDropping]\<rparr>)
   \<and> add_audio_chunk (Bytes [7]) (AudioStreamer 48000)
     = Inr ((AudioStreamer 48000)\<lparr>audio_queue := \<lparr>maxsize = 0, items = [Bytes [7]]\<rparr>\<rparr>)"
  using
    add_audio_chunk_never_raises [where x = "Bytes [7]"
      and s = "(AudioStreamer 48000)\<lparr>audio_queue := \<lparr>maxsize = 1, items = [Bytes [1]]\<rparr>\<rparr>"]
    add_audio_chunk_never_raises [where x = "Bytes [7]" and s = "AudioStreamer 48000"]
  by (simp add: full_def AudioStreamer_def Queue_def)

section \<open>One iteration of the worker\<close>

lemma process_chunk_failure_leaks:
  "sf_read b = Inl e \<Longrightarrow>
   temp_files (process_chunk sf_read b s) = temp_files s @ [temp_counter s]"
  by (simp add: process_chunk_def Let_def split: sum.splits)

lemma process_chunk_success_unlinks:
  "sf_read b = Inr r \<Longrightarrow> temp_counter s \<notin> set (temp_files s) \<Longrightarrow>
   temp_files (process_chunk sf_read b s) = temp_files s"
  by (cases r) (simp add: process_chunk_def Let_def)

lemma process_chunk_buffer:
  "audio_data_buffer (process_chunk sf_read b s) = audio_data_buffer s @ decoded sf_read (Bytes b)"
  by (simp add: process_chunk_def decoded_def Let_def split: sum.splits prod.splits)

lemma process_chunk_frame:
  "audio_queue (process_chunk sf_read b s) = audio_queue s"
  "worker_alive (process_chunk sf_read b s) = worker_alive s"
  "playing (process_chunk sf_read b s) = playing s"
  "streams (process_chunk sf_read b s) = streams s"
  "audio_stream (process_chunk sf_read b s) = audio_stream s"
  "sample_rate (process_chunk sf_read b s) = sample_rate s"
  by (simp_all add: process_chunk_def Let_def split: sum.splits prod.splits)

lemma process_chunk_both_fail:
  "sf_read b = Inl e \<Longrightarrow> decode_raw_pcm b = Inl e' \<Longrightarrow>
   process_chunk sf_read b s =
     s\<lparr>temp_files := temp_files s @ [temp_counter s], temp_counter := Suc (temp_counter s),
       printed := printed s @ [DecodeFailed e, ProcessFailed e']\<rparr>"
  by (simp add: process_chunk_def Let_def)

lemma worker_iteration_stopped:
  "\<not> playing s \<Longrightarrow> worker_iteration sf_read s = Inr (s\<lparr>worker_alive := False\<rparr>)"
  by (simp add: worker_iteration_def)

lemma worker_iteration_empty:
  "playing s \<Longrightarrow> items (audio_queue s) = [] \<Longrightarrow> worker_iteration sf_read s = Inr s"
  by (simp add: worker_iteration_def worker_body_def get_timeout_def)

lemma worker_iteration_sentinel:
  "playing s \<Longrightarrow> items (audio_queue s) = PyNone # rest \<Longrightarrow>
   worker_iteration sf_read s =
     Inr (s\<lparr>audio_queue := (audio_queue s)\<lparr>items := rest\<rparr>, worker_alive := False\<rparr>)"
  by (simp add: worker_iteration_def worker_body_def get_timeout_def)

lemma worker_iteration_bytes:
  "playing s \<Longrightarrow> items (audio_queue s) = Bytes b # rest \<Longrightarrow>
   worker_iteration sf_read s =
     Inr (process_chunk sf_read b (s\<lparr>audio_queue := (audio_queue s)\<lparr>items := rest\<rparr>\<rparr>))"
  by (simp add: worker_iteration_def worker_body_def get_timeout_def)

lemma worker_iteration_returns: "\<exists>s'. worker_iteration sf_read s = Inr s'"
proof (cases "playing s")
  case False
  then show ?thesis by (simp add: worker_iteration_stopped)
next
  case True
  show ?thesis
  proof (cases "items (audio_queue s)")
    case Nil
    with True show ?thesis by (simp add: worker_iteration_empty)
  next
    case (Cons x rest)
    with True show ?thesis
      by (cases x) (simp_all add: worker_iteration_sentinel worker_iteration_bytes)
  qed
qed

lemma worker_iteration_exit_iff:
  "\<not> worker_alive (returned s (worker_iteration sf_read s)) \<longleftrightarrow>
     \<not> worker_alive s \<or> \<not> playing s \<or> (\<exists>rest. items (audio_queue s) = PyNone # rest)"
proof (cases "playing s")
  case False
  then show ?thesis by (simp add: worker_iteration_stopped returned_def)
next
  case True
  show ?thesis
  proof (cases "items (audio_queue s)")
    case Nil
    with True show ?thesis by (simp add: worker_iteration_empty returned_def)
  next
    case (Cons x rest)
    with True show ?thesis
      by (cases x)
        (simp_all add: worker_iteration_sentinel worker_iteration_bytes returned_def
          process_chunk_frame)
  qed
qed

text \<open>
  C3, as amended. An iteration of the worker always ends without an exception. On a chunk
  for which both the container decode and the raw-PCM fallback fail (such as one of odd
  length that soundfile rejects) it appends nothing to the buffer, takes the chunk out of
  the queue, prints both failures and stays in the loop. A live worker leaves the loop
  exactly when \<open>playing\<close> is false at the loop test or the item it takes is \<open>None\<close>.
\<close>

theorem worker_survives_bad_chunk:
  "(\<exists>s'. worker_iteration sf_read s = Inr s')
   \<and> (playing s \<and> items (audio_queue s) = Bytes b # rest \<and>
      sf_read b = Inl e \<and> decode_raw_pcm b = Inl e' \<longrightarrow>
        (\<exists>s'. worker_iteration sf_read s = Inr s' \<and>
           audio_data_buffer s' = audio_data_buffer s \<and>
           items (audio_queue s') = rest \<and>
           printed s' = printed s @ [DecodeFailed e, ProcessFailed e'] \<and>
           worker_alive s' = worker_alive s \<and> playing s'))
   \<and> (playing s \<and> items (audio_queue s) = Bytes b # rest \<and>
      sf_read b = Inl e \<and> odd (length b) \<longrightarrow>
        (\<exists>s'. worker_iteration sf_read s = Inr s' \<and>
           audio_data_buffer s' = audio_data_buffer s \<and>
           items (audio_queue s') = rest \<and>
           printed s' = printed s @ [DecodeFailed e, ProcessFailed PCMError] \<and>
           worker_alive s' = worker_alive s \<and> playing s'))
   \<and> (worker_alive s \<longrightarrow>
        (\<not> worker_alive (returned s (worker_iteration sf_read s)) \<longleftrightarrow>
           \<not> playing s \<or> (\<exists>rest. items (audio_queue s) = PyNone # rest)))"
proof (intro conjI impI)
  show "\<exists>s'. worker_iteration sf_read s = Inr s'"
    by (rule worker_iteration_returns)
next
  assume "playing s \<and> items (audio_queue s) = Bytes b # rest \<and>
      sf_read b = Inl e \<and> decode_raw_pcm b = Inl e'"
  then show "\<exists>s'. worker_iteration sf_read s = Inr s' \<and>
           audio_data_buffer s' = audio_data_buffer s \<and>
           items (audio_queue s') = rest \<and>
           printed s' = printed s @ [DecodeFailed e, ProcessFailed e'] \<and>
           worker_alive s' = worker_alive s \<and> playing s'"
    by (simp add: worker_iteration_bytes process_chunk_both_fail)
next
  assume a: "playing s \<and> items (audio_queue s) = Bytes b # rest \<and>
      sf_read b = Inl e \<and> odd (length b)"
  then have "decode_raw_pcm b = Inl PCMError"
    by (simp add: decode_raw_pcm_def frombuffer_int16_def odd_iff_mod_2_eq_one)
  with a show "\<exists>s'. worker_iteration sf_read s = Inr s' \<and>
           audio_data_buffer s' = audio_data_buffer s \<and>
           items (audio_queue s') = rest \<and>
           printed s' = printed s @ [DecodeFailed e, ProcessFailed PCMError] \<and>
           worker_alive s' = worker_alive s \<and> playing s'"
    by (simp add: worker_iteration_bytes process_chunk_both_fail)
next
  assume "worker_alive s"
  then show "\<not> worker_alive (returned s (worker_iteration sf_read s)) \<longleftrightarrow>
           \<not> playing s \<or> (\<exists>rest. items (audio_queue s) = PyNone # rest)"
    by (simp add: worker_iteration_exit_iff)
qed

theorem worker_survives_bad_chunk_witness:
  "worker_iteration reject_all
     (snd (run reject_all float32 [Start, AddChunk (Bytes [1, 2, 3]), AddChunk (Bytes [4])]
            (AudioStreamer 48000)))
   = Inr ((snd (run reject_all float32 [Start, AddChunk (Bytes [4])] (AudioStreamer 48000)))
            \<lparr>temp_files := [0], temp_counter := 1,
             printed := [StartedStreaming 48000, DecodeFailed DecodeError, ProcessFailed PCMError]\<rparr>)"
  using worker_survives_bad_chunk [where sf_read = reject_all and b = "[1, 2, 3]"
      and rest = "[Bytes [4]]" and e = DecodeError and e' = PCMError
      and s = "snd (run reject_all float32 [Start, AddChunk (Bytes [1, 2, 3]), AddChunk (Bytes [4])]
            (AudioStreamer 48000))"]
  by (simp add: exec_defs)

text \<open>
  The claim C3 as stated has the loop end only on the stream being stopped: after
  \<open>start\<close> and \<open>add_audio_chunk(None)\<close>, one iteration of the live worker ends the
  thread while \<open>playing\<close> is still true.
\<close>

theorem sentinel_ends_worker_while_playing:
  "worker_alive (snd (run reject_all float32 [Start, AddChunk PyNone] (AudioStreamer 48000)))
   \<and> playing (snd (run reject_all float32 [Start, AddChunk PyNone, WorkerIter] (AudioStreamer 48000)))
   \<and> \<not> worker_alive (snd (run reject_all float32 [Start, AddChunk PyNone, WorkerIter] (AudioStreamer 48000)))"
  by (simp add: exec_defs)

text \<open>
  C4 does not hold of the code: the scratch file is unlinked only after soundfile has read
  it, so a chunk that soundfile rejects (here two zero bytes, which the raw-PCM fallback
  then decodes) leaves its file behind.
\<close>

theorem scratch_file_left_behind:
  "temp_files (snd (run reject_all float32 [Start, AddChunk (Bytes [0, 0]), WorkerIter] (AudioStreamer 48000)))
     = [0]"
  by (simp add: exec_defs)

section \<open>Runs of events\<close>

lemma run_append:
  "run sf_read store (es1 @ es2) s =
     (case run sf_read store es1 s of
        (d1, s1) \<Rightarrow> (case run sf_read store es2 s1 of (d2, s2) \<Rightarrow> (d1 @ d2, s2)))"
  by (induction es1 arbitrary: s) (simp_all split: prod.splits)

lemma submitted_append: "submitted (es1 @ es2) = submitted es1 @ submitted es2"
  by (induction es1 rule: submitted.induct) simp_all

lemma worker_iteration_frame:
  assumes "worker_iteration sf_read s = Inr s'"
  shows "playing s' = playing s" and "streams s' = streams s"
    and "audio_stream s' = audio_stream s"
    and "maxsize (audio_queue s') = maxsize (audio_queue s)"
proof -
  have "playing s' = playing s \<and> streams s' = streams s \<and> audio_stream s' = audio_stream s
      \<and> maxsize (audio_queue s') = maxsize (audio_queue s)"
  proof (cases "playing s")
    case False
    with assms show ?thesis by (auto simp: worker_iteration_stopped)
  next
    case True
    show ?thesis
    proof (cases "items (audio_queue s)")
      case Nil
      with True assms show ?thesis by (auto simp: worker_iteration_empty)
    next
      case (Cons x rest)
      with True assms show ?thesis
        by (cases x)
          (auto simp: worker_iteration_sentinel worker_iteration_bytes process_chunk_frame)
    qed
  qed
  then show "playing s' = playing s" and "streams s' = streams s"
    and "audio_stream s' = audio_stream s"
    and "maxsize (audio_queue s') = maxsize (audio_queue s)"
    by simp_all
qed

lemma worker_iteration_fifo:
  assumes "worker_iteration sf_read s = Inr s'"
  shows "audio_data_buffer s' @ pending sf_read s' = audio_data_buffer s @ pending sf_read s"
proof (cases "playing s")
  case False
  with assms show ?thesis by (auto simp: worker_iteration_stopped pending_def)
next
  case True
  show ?thesis
  proof (cases "items (audio_queue s)")
    case Nil
    with True assms show ?thesis by (auto simp: worker_iteration_empty)
  next
    case (Cons x rest)
    with True assms show ?thesis
      by (cases x)
        (auto simp: worker_iteration_sentinel worker_iteration_bytes process_chunk_frame
          process_chunk_buffer pending_def decoded_def)
  qed
qed

lemma audio_callback_drain:
  assumes "audio_callback store frames status s = (outdata, chunk, s')"
  shows "chunk = take frames (audio_data_buffer s)"
    and "audio_data_buffer s' = drop frames (audio_data_buffer s)"
    and "audio_queue s' = audio_queue s" and "playing s' = playing s"
    and "worker_alive s' = worker_alive s" and "streams s' = streams s"
    and "audio_stream s' = audio_stream s"
  using assms by (auto simp: audio_callback_def Let_def split: if_splits)

lemma step_invar: "invar s \<Longrightarrow> invar (snd (step sf_read store e s))"
proof (cases e)
  case Start
  assume "invar s"
  then show ?thesis using Start
    by (auto simp: invar_def start_def start_streaming_output_def returned_def nth_append
        split: option.splits)
next
  case Stop
  assume "invar s"
  then show ?thesis using Stop
    by (auto simp: invar_def stop_def returned_def Let_def stream_close_def split: option.splits)
next
  case (AddChunk x)
  assume "invar s"
  then show ?thesis using AddChunk
    by (auto simp: invar_def add_audio_chunk_def put_nowait_def full_def returned_def
        split: option.splits)
next
  case WorkerIter
  assume i: "invar s"
  obtain s' where w: "worker_iteration sf_read s = Inr s'"
    using worker_iteration_returns by blast
  show ?thesis using WorkerIter i w worker_iteration_frame [OF w]
    by (auto simp: invar_def returned_def split: option.splits)
next
  case (Callback i frames status)
  assume inv: "invar s"
  obtain od ch s' where c: "audio_callback store frames status s = (od, ch, s')"
    using prod_cases3 by blast
  show ?thesis using Callback inv c audio_callback_drain [OF c]
    by (auto simp: invar_def split: option.splits)
qed

lemma snd_run_Cons:
  "snd (run sf_read store (e # es) s) = snd (run sf_read store es (snd (step sf_read store e s)))"
  by (simp split: prod.splits)

lemma run_invar: "invar s \<Longrightarrow> invar (snd (run sf_read store es s))"
proof (induction es arbitrary: s)
  case Nil
  then show ?case by simp
next
  case (Cons e es)
  from Cons.prems have "invar (snd (step sf_read store e s))" by (rule step_invar)
  from Cons.IH [OF this] show ?case by (simp only: snd_run_Cons)
qed

lemma invar_init: "invar (AudioStreamer rate)"
  by (simp add: invar_def AudioStreamer_def Queue_def)

lemma reachable_invar: "invar (snd (run sf_read store es (AudioStreamer rate)))"
  by (rule run_invar [OF invar_init])

lemma reachable_never_full:
  "\<not> full (audio_queue (snd (run sf_read store es (AudioStreamer rate))))"
  using reachable_invar [where sf_read = sf_read and store = store and es = es and rate = rate]
  by (simp add: invar_def full_def)

lemma step_fifo:
  assumes "maxsize (audio_queue s) = 0" and "step sf_read store e s = (ds, s')"
  shows "concat ds @ audio_data_buffer s' @ pending sf_read s' =
           audio_data_buffer s @ pending sf_read s @ concat (map (decoded sf_read) (submitted [e]))"
proof (cases e)
  case Start
  with assms show ?thesis
    by (auto simp: start_def start_streaming_output_def returned_def pending_def)
next
  case Stop
  with assms show ?thesis
    by (auto simp: stop_def returned_def Let_def pending_def split: option.splits)
next
  case (AddChunk x)
  with assms show ?thesis
    by (auto simp: add_audio_chunk_def put_nowait_def full_def returned_def pending_def)
next
  case WorkerIter
  obtain t where w: "worker_iteration sf_read s = Inr t"
    using worker_iteration_returns by blast
  show ?thesis using WorkerIter assms w worker_iteration_fifo [OF w]
    by (auto simp: returned_def split: if_splits)
next
  case (Callback i frames status)
  obtain od ch t where c: "audio_callback store frames status s = (od, ch, t)"
    using prod_cases3 by blast
  show ?thesis using Callback assms c audio_callback_drain [OF c]
    by (auto simp: pending_def split: if_splits)
qed

lemma step_maxsize:
  "maxsize (audio_queue (snd (step sf_read store e s))) = maxsize (audio_queue s)"
proof (cases e)
  case WorkerIter
  obtain t where w: "worker_iteration sf_read s = Inr t"
    using worker_iteration_returns by blast
  show ?thesis using WorkerIter w worker_iteration_frame [OF w] by (simp add: returned_def)
next
  case (Callback i frames status)
  obtain od ch t where c: "audio_callback store frames status s = (od, ch, t)"
    using prod_cases3 by blast
  show ?thesis using Callback c audio_callback_drain [OF c] by simp
qed (auto simp: start_def start_streaming_output_def stop_def Let_def add_audio_chunk_def
      put_nowait_def returned_def split: option.splits)

lemma run_fifo:
  assumes "maxsize (audio_queue s) = 0" and "run sf_read store es s = (ds, s')"
  shows "concat ds @ audio_data_buffer s' @ pending sf_read s' =
           audio_data_buffer s @ pending sf_read s @ concat (map (decoded sf_read) (submitted es))"
  using assms
proof (induction es arbitrary: s ds s')
  case Nil
  then show ?case by simp
next
  case (Cons e es)
  obtain d1 s1 where st: "step sf_read store e s = (d1, s1)" by force
  obtain d2 s2 where r: "run sf_read store es s1 = (d2, s2)" by force
  have m: "maxsize (audio_queue s1) = 0"
    using step_maxsize [where sf_read = sf_read and store = store and e = e and s = s] st Cons.prems(1) by simp
  have eq: "ds = d1 @ d2" "s' = s2"
    using Cons.prems(2) st r by simp_all
  have "concat d1 @ audio_data_buffer s1 @ pending sf_read s1 =
          audio_data_buffer s @ pending sf_read s @ concat (map (decoded sf_read) (submitted [e]))"
    using step_fifo [OF Cons.prems(1) st] .
  moreover have "concat d2 @ audio_data_buffer s2 @ pending sf_read s2 =
          audio_data_buffer s1 @ pending sf_read s1 @ concat (map (decoded sf_read) (submitted es))"
    using Cons.IH [OF m r] .
  moreover have "submitted (e # es) = submitted [e] @ submitted es"
    using submitted_append [of "[e]" es] by simp
  ultimately show ?case using eq by simp
qed

lemma run_worker_iters:
  assumes "playing s" and "worker_alive s" and "items (audio_queue s) = xs @ rest"
    and "PyNone \<notin> set xs"
  shows "case run sf_read store (replicate (length xs) WorkerIter) s of
           (ds, s') \<Rightarrow>
             ds = [] \<and> playing s' \<and> worker_alive s' \<and> items (audio_queue s') = rest \<and>
             maxsize (audio_queue s') = maxsize (audio_queue s) \<and>
             audio_data_buffer s' = audio_data_buffer s @ concat (map (decoded sf_read) xs) \<and>
             streams s' = streams s \<and> audio_stream s' = audio_stream s"
  using assms
proof (induction xs arbitrary: s)
  case Nil
  then show ?case by simp
next
  case (Cons x xs)
  from Cons.prems(4) obtain b where x: "x = Bytes b"
    by (cases x) auto
  let ?t = "process_chunk sf_read b (s\<lparr>audio_queue := (audio_queue s)\<lparr>items := xs @ rest\<rparr>\<rparr>)"
  have st: "step sf_read store WorkerIter s = ([], ?t)"
    using Cons.prems x by (simp add: worker_iteration_bytes returned_def)
  have t: "playing ?t" "worker_alive ?t" "items (audio_queue ?t) = xs @ rest" "PyNone \<notin> set xs"
    using Cons.prems by (simp_all add: process_chunk_frame)
  have b: "audio_data_buffer ?t = audio_data_buffer s @ decoded sf_read x"
    using x by (simp add: process_chunk_buffer)
  have f: "maxsize (audio_queue ?t) = maxsize (audio_queue s)" "streams ?t = streams s"
    "audio_stream ?t = audio_stream s"
    by (simp_all add: process_chunk_frame)
  show ?case using Cons.IH [OF t] st b f
    by (simp split: prod.splits)
qed

lemma run_callbacks:
  assumes "i < length (streams s)" and "streams s ! i = Active"
  shows "case run sf_read store (replicate n (Callback i frames status)) s of
           (ds, s') \<Rightarrow>
             concat ds = take (n * frames) (audio_data_buffer s) \<and>
             audio_data_buffer s' = drop (n * frames) (audio_data_buffer s) \<and>
             audio_queue s' = audio_queue s \<and> playing s' = playing s \<and>
             worker_alive s' = worker_alive s \<and> streams s' = streams s \<and>
             audio_stream s' = audio_stream s"
  using assms
proof (induction n arbitrary: s)
  case 0
  then show ?case by simp
next
  case (Suc n)
  obtain od ch t where c: "audio_callback store frames status s = (od, ch, t)"
    using prod_cases3 by blast
  note d = audio_callback_drain [OF c]
  have st: "step sf_read store (Callback i frames status) s = ([ch], t)"
    using Suc.prems c by simp
  have t: "i < length (streams t)" "streams t ! i = Active"
    using Suc.prems d by simp_all
  have "take frames (audio_data_buffer s) @ take (n * frames) (drop frames (audio_data_buffer s))
          = take (frames + n * frames) (audio_data_buffer s)"
    by (simp add: take_add)
  moreover have "drop (n * frames) (drop frames (audio_data_buffer s))
          = drop (frames + n * frames) (audio_data_buffer s)"
    by (simp add: add.commute)
  ultimately show ?case using Suc.IH [OF t] st d
    by (simp split: prod.splits)
qed

lemma invar_playing_stream:
  assumes "invar s" and "playing s"
  shows "the (audio_stream s) < length (streams s)"
    and "streams s ! the (audio_stream s) = Active"
  using assms by (auto simp: invar_def split: option.splits)

lemma run_dead_worker:
  assumes "\<not> worker_alive s" and "maxsize (audio_queue s) = 0" and "Start \<notin> set es"
    and "run sf_read store es s = (ds, s')"
  shows "\<not> worker_alive s' \<and> items (audio_queue s') = items (audio_queue s) @ submitted es \<and>
         audio_data_buffer s = concat ds @ audio_data_buffer s'"
  using assms
proof (induction es arbitrary: s ds s')
  case Nil
  then show ?case by simp
next
  case (Cons e es)
  obtain d1 s1 where st: "step sf_read store e s = (d1, s1)" by force
  obtain d2 s2 where r: "run sf_read store es s1 = (d2, s2)" by force
  have eq: "ds = d1 @ d2" "s' = s2"
    using Cons.prems(4) st r by simp_all
  have one: "\<not> worker_alive s1 \<and> maxsize (audio_queue s1) = 0 \<and>
      items (audio_queue s1) = items (audio_queue s) @ submitted [e] \<and>
      audio_data_buffer s = concat d1 @ audio_data_buffer s1"
  proof (cases e)
    case Start
    with Cons.prems(3) show ?thesis by simp
  next
    case Stop
    with st Cons.prems(1,2) show ?thesis
      by (auto simp: stop_def returned_def Let_def split: option.splits)
  next
    case (AddChunk x)
    with st Cons.prems(1,2) show ?thesis
      by (auto simp: add_audio_chunk_def put_nowait_def full_def returned_def)
  next
    case WorkerIter
    with st Cons.prems(1,2) show ?thesis by auto
  next
    case (Callback i frames status)
    obtain od ch t where c: "audio_callback store frames status s = (od, ch, t)"
      using prod_cases3 by blast
    show ?thesis using Callback st Cons.prems(1,2) c audio_callback_drain [OF c]
      by (auto split: if_splits)
  qed
  have "\<not> worker_alive s2 \<and> items (audio_queue s2) = items (audio_queue s1) @ submitted es \<and>
         audio_data_buffer s1 = concat d2 @ audio_data_buffer s2"
    using Cons.IH [OF _ _ _ r] one Cons.prems(3) by simp
  moreover have "submitted (e # es) = submitted [e] @ submitted es"
    using submitted_append [of "[e]" es] by simp
  ultimately show ?case using one eq by simp
qed

lemmas spec_defs = Running_def Stopped_def pending_def decoded_def signed_word_cat le_int16_def

lemma run_dead_worker_iters:
  "\<not> worker_alive s \<Longrightarrow> run sf_read store (replicate n WorkerIter) s = ([], s)"
  by (induction n) simp_all

lemma run_worker_to_sentinel:
  assumes "playing s" and "PyNone \<in> set (items (audio_queue s))"
    and "length (items (audio_queue s)) \<le> n"
  shows "case run sf_read store (replicate n WorkerIter) s of
           (ds, s') \<Rightarrow>
             ds = [] \<and> \<not> worker_alive s' \<and> playing s' \<and>
             streams s' = streams s \<and> audio_stream s' = audio_stream s"
  using assms
proof (induction n arbitrary: s)
  case 0
  then show ?case by simp
next
  case (Suc n)
  show ?case
  proof (cases "worker_alive s")
    case False
    then have "run sf_read store (replicate (Suc n) WorkerIter) s = ([], s)"
      by (rule run_dead_worker_iters)
    then show ?thesis using False Suc.prems(1) by simp
  next
    case True
    from Suc.prems(2) obtain x rest where q: "items (audio_queue s) = x # rest"
      by (cases "items (audio_queue s)") auto
    show ?thesis
    proof (cases x)
      case PyNone
      let ?t = "s\<lparr>audio_queue := (audio_queue s)\<lparr>items := rest\<rparr>, worker_alive := False\<rparr>"
      have st: "step sf_read store WorkerIter s = ([], ?t)"
        using True Suc.prems(1) q PyNone by (simp add: worker_iteration_sentinel returned_def)
      have "run sf_read store (replicate n WorkerIter) ?t = ([], ?t)"
        by (rule run_dead_worker_iters) simp
      then show ?thesis using st Suc.prems(1) by simp
    next
      case (Bytes b)
      let ?t = "process_chunk sf_read b (s\<lparr>audio_queue := (audio_queue s)\<lparr>items := rest\<rparr>\<rparr>)"
      have st: "step sf_read store WorkerIter s = ([], ?t)"
        using True Suc.prems(1) q Bytes by (simp add: worker_iteration_bytes returned_def)
      have t: "playing ?t" "PyNone \<in> set (items (audio_queue ?t))"
        "length (items (audio_queue ?t)) \<le> n"
        using Suc.prems q Bytes by (simp_all add: process_chunk_frame)
      have f: "streams ?t = streams s" "audio_stream ?t = audio_stream s"
        by (simp_all add: process_chunk_frame)
      show ?thesis using Suc.IH [OF t] st f by (simp split: prod.splits)
    qed
  qed
qed

lemma step_chunks_only:
  assumes "chunks_only s" and "e \<noteq> AddChunk PyNone"
  shows "chunks_only (snd (step sf_read store e s))"
proof (cases e)
  case Start
  with assms show ?thesis
    by (auto simp: chunks_only_def start_def start_streaming_output_def returned_def)
next
  case Stop
  with assms show ?thesis
    by (auto simp: chunks_only_def stop_def returned_def Let_def split: option.splits)
next
  case (AddChunk x)
  with assms show ?thesis
    by (auto simp: chunks_only_def add_audio_chunk_def put_nowait_def returned_def)
next
  case WorkerIter
  show ?thesis
  proof (cases "worker_alive s")
    case False
    with assms WorkerIter show ?thesis by simp
  next
    case alive: True
    show ?thesis
    proof (cases "playing s")
      case False
      with assms WorkerIter alive show ?thesis
        by (simp add: chunks_only_def worker_iteration_stopped returned_def)
    next
      case True
      show ?thesis
      proof (cases "items (audio_queue s)")
        case Nil
        with assms WorkerIter alive True show ?thesis
          by (simp add: chunks_only_def worker_iteration_empty returned_def)
      next
        case (Cons x rest)
        with assms(1) obtain b where "x = Bytes b"
          by (cases x) (auto simp: chunks_only_def)
        with assms WorkerIter alive True Cons show ?thesis
          by (simp add: chunks_only_def worker_iteration_bytes returned_def process_chunk_frame)
      qed
    qed
  qed
next
  case (Callback i frames status)
  obtain od ch t where c: "audio_callback store frames status s = (od, ch, t)"
    using prod_cases3 by blast
  show ?thesis using Callback assms c audio_callback_drain [OF c]
    by (auto simp: chunks_only_def)
qed

lemma run_chunks_only:
  "chunks_only s \<Longrightarrow> PyNone \<notin> set (submitted es) \<Longrightarrow>
   chunks_only (snd (run sf_read store es s))"
proof (induction es arbitrary: s)
  case Nil
  then show ?case by simp
next
  case (Cons e es)
  have ne: "e \<noteq> AddChunk PyNone" and rest: "PyNone \<notin> set (submitted es)"
    using Cons.prems(2) by (cases e; auto)+
  have "chunks_only (snd (step sf_read store e s))"
    using Cons.prems(1) ne by (rule step_chunks_only)
  from Cons.IH [OF this rest] show ?case by (simp only: snd_run_Cons)
qed

lemma reachable_chunks_only:
  "PyNone \<notin> set (submitted es) \<Longrightarrow>
   chunks_only (snd (run sf_read store es (AudioStreamer rate)))"
  by (rule run_chunks_only) (simp_all add: chunks_only_def AudioStreamer_def Queue_def)

lemma run_Cons_silent:
  "step sf_read store e s = ([], t) \<Longrightarrow> run sf_read store (e # es) s = run sf_read store es t"
  by (simp split: prod.splits)

lemma start_then_worker_iters:
  assumes "\<not> worker_alive s" and "PyNone \<notin> set (items (audio_queue s))"
  shows "case run sf_read store (Start # replicate (length (items (audio_queue s))) WorkerIter) s of
           (ds, s') \<Rightarrow>
             ds = [] \<and> playing s' \<and> worker_alive s' \<and> items (audio_queue s') = [] \<and>
             audio_data_buffer s' = audio_data_buffer s @ pending sf_read s"
proof -
  let ?q = "items (audio_queue s)"
  let ?t = "start_streaming_output (s\<lparr>playing := True, worker_alive := True\<rparr>)"
  have st: "step sf_read store Start s = ([], ?t)"
    using assms(1) by (simp add: start_def returned_def)
  have t: "playing ?t" "worker_alive ?t" "items (audio_queue ?t) = ?q @ []" "PyNone \<notin> set ?q"
    using assms(2) by (simp_all add: start_streaming_output_def)
  obtain d s' where w: "run sf_read store (replicate (length ?q) WorkerIter) ?t = (d, s')"
    by force
  have "d = [] \<and> playing s' \<and> worker_alive s' \<and> items (audio_queue s') = [] \<and>
      audio_data_buffer s' = audio_data_buffer ?t @ concat (map (decoded sf_read) ?q)"
    using run_worker_iters [OF t, where sf_read = sf_read and store = store] w by simp
  then show ?thesis using st w
    by (simp add: start_streaming_output_def pending_def)
qed

section \<open>The pipeline from submission to playback\<close>

text \<open>
  C1. After any run of events from \<open>__init__\<close>, the samples drained by the callbacks so
  far, followed by the buffer, followed by the decoded samples of the items still queued,
  are the decoded samples of all submitted chunks in submission order, a chunk that fails
  both decode paths contributing nothing: no sample is duplicated, skipped or reordered.
  So once queue and buffer are empty, what was drained is exactly what was submitted. And
  from a running stream with a live worker and no \<open>None\<close> queued this is reached: after
  one worker iteration per queued chunk and enough callbacks, everything submitted has
  been drained. While only chunks are submitted, a running stream has a live worker and
  no \<open>None\<close> queued.
\<close>

theorem fifo_pipeline:
  "case run sf_read store es (AudioStreamer rate) of
     (ds, s) \<Rightarrow>
       concat ds @ audio_data_buffer s @ pending sf_read s
         = concat (map (decoded sf_read) (submitted es))
     \<and> (audio_data_buffer s = [] \<and> items (audio_queue s) = [] \<longrightarrow>
          concat ds = concat (map (decoded sf_read) (submitted es)))
     \<and> (Running s \<and> worker_alive s \<and> PyNone \<notin> set (items (audio_queue s)) \<and>
        length (audio_data_buffer s @ pending sf_read s) \<le> n * frames \<longrightarrow>
          (case run sf_read store
                  (replicate (length (items (audio_queue s))) WorkerIter @
                   replicate n (Callback (the (audio_stream s)) frames status)) s of
             (ds', s') \<Rightarrow>
               concat (ds @ ds') = concat (map (decoded sf_read) (submitted es)) \<and>
               audio_data_buffer s' = [] \<and> items (audio_queue s') = []))
     \<and> (PyNone \<notin> set (submitted es) \<and> Running s \<longrightarrow>
          worker_alive s \<and> PyNone \<notin> set (items (audio_queue s)))"
proof -
  obtain ds s where r: "run sf_read store es (AudioStreamer rate) = (ds, s)" by force
  have inv: "invar s"
    using reachable_invar [where sf_read = sf_read and store = store and es = es and rate = rate] r
    by simp
  have fifo: "concat ds @ audio_data_buffer s @ pending sf_read s
         = concat (map (decoded sf_read) (submitted es))"
    using run_fifo [OF _ r] by (simp add: AudioStreamer_def Queue_def pending_def)
  have flushed: "concat ds = concat (map (decoded sf_read) (submitted es))"
    if "audio_data_buffer s = [] \<and> items (audio_queue s) = []"
    using fifo that by (simp add: pending_def)
  have flush: "case run sf_read store
                  (replicate (length (items (audio_queue s))) WorkerIter @
                   replicate n (Callback (the (audio_stream s)) frames status)) s of
             (ds', s') \<Rightarrow>
               concat (ds @ ds') = concat (map (decoded sf_read) (submitted es)) \<and>
               audio_data_buffer s' = [] \<and> items (audio_queue s') = []"
    if h: "Running s \<and> worker_alive s \<and> PyNone \<notin> set (items (audio_queue s)) \<and>
        length (audio_data_buffer s @ pending sf_read s) \<le> n * frames"
  proof -
    let ?i = "the (audio_stream s)"
    obtain d1 s1 where w:
      "run sf_read store (replicate (length (items (audio_queue s))) WorkerIter) s = (d1, s1)"
      by force
    have w1: "d1 = [] \<and> playing s1 \<and> worker_alive s1 \<and> items (audio_queue s1) = [] \<and>
        audio_data_buffer s1 = audio_data_buffer s @ pending sf_read s \<and>
        streams s1 = streams s \<and> audio_stream s1 = audio_stream s"
      using run_worker_iters [where s = s and xs = "items (audio_queue s)" and rest = "[]"
          and sf_read = sf_read and store = store] h w
      by (simp add: Running_def pending_def)
    have act: "?i < length (streams s1)" "streams s1 ! ?i = Active"
      using invar_playing_stream [OF inv] h w1 by (simp_all add: Running_def)
    obtain d2 s2 where c:
      "run sf_read store (replicate n (Callback ?i frames status)) s1 = (d2, s2)"
      by force
    have c1: "concat d2 = take (n * frames) (audio_data_buffer s1) \<and>
        audio_data_buffer s2 = drop (n * frames) (audio_data_buffer s1) \<and>
        audio_queue s2 = audio_queue s1"
      using run_callbacks [OF act, where sf_read = sf_read and store = store and n = n
          and frames = frames and status = status] c by simp
    have len: "length (audio_data_buffer s1) \<le> n * frames"
      using w1 h by simp
    have "concat d2 = audio_data_buffer s @ pending sf_read s" "audio_data_buffer s2 = []"
      using c1 w1 len by (simp_all only: take_all drop_all)
    then show ?thesis using w c w1 c1 fifo
      by (simp add: run_append)
  qed
  have chunks: "worker_alive s \<and> PyNone \<notin> set (items (audio_queue s))"
    if "PyNone \<notin> set (submitted es) \<and> Running s"
    using reachable_chunks_only [where es = es and sf_read = sf_read and store = store
        and rate = rate] that r
    by (simp add: chunks_only_def Running_def)
  show ?thesis using r fifo flushed flush chunks by simp
qed

theorem fifo_pipeline_witness:
  "Running (snd (run reject_all float32
      [Start, AddChunk (Bytes [0, 128]), AddChunk (Bytes [1]),
       AddChunk (Bytes [255, 127, 1, 0]), WorkerIter, Callback 0 1 False] (AudioStreamer 48000)))
   \<and> fst (run reject_all float32
      [Start, AddChunk (Bytes [0, 128]), AddChunk (Bytes [1]),
       AddChunk (Bytes [255, 127, 1, 0]), WorkerIter, Callback 0 1 False] (AudioStreamer 48000))
      = [[- 1]]
   \<and> fst (run reject_all float32 [WorkerIter, WorkerIter, Callback 0 2 False]
        (snd (run reject_all float32
          [Start, AddChunk (Bytes [0, 128]), AddChunk (Bytes [1]),
           AddChunk (Bytes [255, 127, 1, 0]), WorkerIter, Callback 0 1 False]
          (AudioStreamer 48000))))
      = [[32767 / 32768, 1 / 32768]]
   \<and> concat (map (decoded reject_all)
        [Bytes [0, 128], Bytes [1], Bytes [255, 127, 1, 0]]) = [- 1, 32767 / 32768, 1 / 32768]"
  using fifo_pipeline [where sf_read = reject_all and store = float32 and rate = 48000
      and n = 1 and frames = 2 and status = False
      and es = "[Start, AddChunk (Bytes [0, 128]), AddChunk (Bytes [1]),
       AddChunk (Bytes [255, 127, 1, 0]), WorkerIter, Callback 0 1 False]"]
  by (simp add: exec_defs spec_defs)

section \<open>Start and stop\<close>

lemma stop_not_playing:
  assumes "\<not> playing s"
    and "case audio_stream s of None \<Rightarrow> True | Some i \<Rightarrow> streams s ! i = Closed"
  shows "stop s = Inr s"
proof (cases "audio_stream s")
  case None
  have "s\<lparr>playing := False\<rparr> = s\<lparr>playing := playing s\<rparr>"
    using assms(1) by simp
  then show ?thesis using None by (simp add: stop_def)
next
  case (Some i)
  have "(streams s)[i := Closed] = (streams s)[i := streams s ! i]"
    using assms(2) Some by simp
  then have l: "(streams s)[i := Closed] = streams s"
    by (simp only: list_update_id)
  have "s\<lparr>playing := False, streams := (streams s)[i := Closed]\<rparr>
      = s\<lparr>playing := playing s, streams := streams s\<rparr>"
    using assms(1) l by simp
  then show ?thesis using Some by (simp add: stop_def stream_close_def)
qed

lemma stop_twice: "\<exists>s1. stop s = Inr s1 \<and> stop s1 = Inr s1"
proof (cases "audio_stream s")
  case None
  then show ?thesis by (simp add: stop_def)
next
  case (Some i)
  then show ?thesis by (simp add: stop_def stream_close_def)
qed

text \<open>
  C7, as amended. In every state reached from \<open>__init__\<close>: \<open>start\<close> on a running stream
  whose worker thread is alive returns the state as it is (no second worker, no second
  output stream), and the worker of a running stream is alive as long as no \<open>None\<close> has
  been submitted; \<open>stop\<close> on a stopped stream returns the state as it is and raises
  nothing; and \<open>stop\<close> called twice in a row does in its second call nothing.
\<close>

theorem start_stop_idempotent:
  "case run sf_read store es (AudioStreamer rate) of
     (ds, s) \<Rightarrow>
       (Running s \<and> worker_alive s \<longrightarrow> start s = Inr s)
     \<and> (PyNone \<notin> set (submitted es) \<and> Running s \<longrightarrow> start s = Inr s)
     \<and> (Stopped s \<longrightarrow> stop s = Inr s)
     \<and> (\<exists>s1. stop s = Inr s1 \<and> stop s1 = Inr s1)"
proof -
  obtain ds s where r: "run sf_read store es (AudioStreamer rate) = (ds, s)" by force
  have inv: "invar s"
    using reachable_invar [where sf_read = sf_read and store = store and es = es and rate = rate] r
    by simp
  have a: "start s = Inr s" if "worker_alive s"
    using that by (simp add: start_def)
  have a': "start s = Inr s" if "PyNone \<notin> set (submitted es) \<and> Running s"
    using reachable_chunks_only [where es = es and sf_read = sf_read and store = store
        and rate = rate] that r a
    by (simp add: chunks_only_def Running_def)
  have b: "stop s = Inr s" if "Stopped s"
    using that inv by (simp add: Stopped_def invar_def stop_not_playing split: option.splits)
  have c: "\<exists>s1. stop s = Inr s1 \<and> stop s1 = Inr s1"
    by (rule stop_twice)
  show ?thesis using r a a' b c by simp
qed

theorem start_stop_idempotent_witness:
  "Running (snd (run reject_all float32 [Start] (AudioStreamer 48000)))
   \<and> start (snd (run reject_all float32 [Start] (AudioStreamer 48000)))
       = Inr (snd (run reject_all float32 [Start] (AudioStreamer 48000)))
   \<and> Stopped (snd (run reject_all float32 [Start, Stop] (AudioStreamer 48000)))
   \<and> stop (snd (run reject_all float32 [Start, Stop] (AudioStreamer 48000)))
       = Inr (snd (run reject_all float32 [Start, Stop] (AudioStreamer 48000)))"
  using start_stop_idempotent [where sf_read = reject_all and store = float32 and rate = 48000
      and es = "[Start]"]
    start_stop_idempotent [where sf_read = reject_all and store = float32 and rate = 48000
      and es = "[Start, Stop]"]
  by (simp add: exec_defs spec_defs)

text \<open>
  The claim C7 as stated has \<open>start\<close> do nothing on every running stream. \<open>start\<close> tests
  the liveness of the worker thread and not \<open>playing\<close>: after \<open>start\<close>,
  \<open>add_audio_chunk(None)\<close> and the worker iteration that takes the \<open>None\<close>, the stream is
  running, and a second \<open>start\<close> opens a second output stream.
\<close>

theorem start_while_running_opens_second_stream:
  "Running (snd (run reject_all float32 [Start, AddChunk PyNone, WorkerIter] (AudioStreamer 48000)))
   \<and> streams (snd (run reject_all float32 [Start, AddChunk PyNone, WorkerIter]
        (AudioStreamer 48000))) = [Active]
   \<and> streams (snd (run reject_all float32 [Start, AddChunk PyNone, WorkerIter, Start]
        (AudioStreamer 48000))) = [Active, Active]
   \<and> start (snd (run reject_all float32 [Start, AddChunk PyNone, WorkerIter] (AudioStreamer 48000)))
       \<noteq> Inr (snd (run reject_all float32 [Start, AddChunk PyNone, WorkerIter]
             (AudioStreamer 48000)))"
  by (simp add: exec_defs spec_defs)




text \<open>
  C10, as amended. On a running stream, submitting \<open>None\<close> makes the worker, once it has
  taken the items queued up to and including it, leave its loop: the thread is dead
  although \<open>playing\<close> is true and the output stream is active as before. While the
  worker is dead, whatever happens without a \<open>start\<close> decodes nothing: submitted items
  pile up in the queue, and the buffer only loses what the callbacks drain. A \<open>start\<close>,
  with or without a \<open>stop\<close> before it, gives a live worker again, the queue as it was,
  and this worker decodes the queued chunks.
\<close>

theorem sentinel_stops_decoding:
  "case run sf_read store es (AudioStreamer rate) of
     (ds, s) \<Rightarrow>
       (Running s \<longrightarrow>
          (case run sf_read store
                  (AddChunk PyNone # replicate (Suc (length (items (audio_queue s)))) WorkerIter) s of
             (ds1, s1) \<Rightarrow>
               \<not> worker_alive s1 \<and> playing s1 \<and>
               streams s1 = streams s \<and> audio_stream s1 = audio_stream s \<and>
               streams s1 ! the (audio_stream s1) = Active))
     \<and> (\<not> worker_alive s \<and> Start \<notin> set es' \<longrightarrow>
          (case run sf_read store es' s of
             (ds', s') \<Rightarrow>
               \<not> worker_alive s' \<and>
               items (audio_queue s') = items (audio_queue s) @ submitted es' \<and>
               audio_data_buffer s = concat ds' @ audio_data_buffer s'))
     \<and> (\<not> worker_alive s \<longrightarrow>
          (case run sf_read store [Stop, Start] s of
             (ds', s') \<Rightarrow>
               playing s' \<and> worker_alive s' \<and> items (audio_queue s') = items (audio_queue s)))
     \<and> (\<not> worker_alive s \<longrightarrow>
          (case run sf_read store [Start] s of
             (ds', s') \<Rightarrow>
               playing s' \<and> worker_alive s' \<and> items (audio_queue s') = items (audio_queue s)))
     \<and> (\<not> worker_alive s \<and> PyNone \<notin> set (items (audio_queue s)) \<longrightarrow>
          (case run sf_read store (Start # replicate (length (items (audio_queue s))) WorkerIter) s of
             (ds', s') \<Rightarrow>
               items (audio_queue s') = [] \<and>
               audio_data_buffer s' = audio_data_buffer s @ pending sf_read s))"
proof -
  obtain ds s where r: "run sf_read store es (AudioStreamer rate) = (ds, s)" by force
  have inv: "invar s"
    using reachable_invar [where sf_read = sf_read and store = store and es = es and rate = rate] r
    by simp
  have p1: "case run sf_read store
                  (AddChunk PyNone # replicate (Suc (length (items (audio_queue s)))) WorkerIter) s of
             (ds1, s1) \<Rightarrow>
               \<not> worker_alive s1 \<and> playing s1 \<and>
               streams s1 = streams s \<and> audio_stream s1 = audio_stream s \<and>
               streams s1 ! the (audio_stream s1) = Active"
    if h: "Running s"
  proof -
    let ?q = "items (audio_queue s)"
    let ?s1 = "s\<lparr>audio_queue := (audio_queue s)\<lparr>items := ?q @ [PyNone]\<rparr>\<rparr>"
    have st: "step sf_read store (AddChunk PyNone) s = ([], ?s1)"
      using inv by (simp add: add_audio_chunk_def put_nowait_def full_def invar_def returned_def)
    have s1: "playing ?s1" "PyNone \<in> set (items (audio_queue ?s1))"
      "length (items (audio_queue ?s1)) \<le> Suc (length ?q)"
      using h by (simp_all add: Running_def)
    have act: "streams s ! the (audio_stream s) = Active"
      using invar_playing_stream [OF inv] h by (simp add: Running_def)
    from run_worker_to_sentinel [OF s1, where sf_read = sf_read and store = store]
    have "case run sf_read store (replicate (Suc (length ?q)) WorkerIter) ?s1 of
            (ds1, s1) \<Rightarrow>
              ds1 = [] \<and> \<not> worker_alive s1 \<and> playing s1 \<and>
              streams s1 = streams ?s1 \<and> audio_stream s1 = audio_stream ?s1" .
    then have "case run sf_read store (replicate (Suc (length ?q)) WorkerIter) ?s1 of
            (ds1, s1) \<Rightarrow>
              \<not> worker_alive s1 \<and> playing s1 \<and>
              streams s1 = streams s \<and> audio_stream s1 = audio_stream s \<and>
              streams s1 ! the (audio_stream s1) = Active"
      using act by (auto simp del: run.simps replicate.simps split: prod.splits)
    then show ?thesis by (simp only: run_Cons_silent [OF st])
  qed
  have p2: "case run sf_read store es' s of
             (ds', s') \<Rightarrow>
               \<not> worker_alive s' \<and>
               items (audio_queue s') = items (audio_queue s) @ submitted es' \<and>
               audio_data_buffer s = concat ds' @ audio_data_buffer s'"
    if h: "\<not> worker_alive s \<and> Start \<notin> set es'"
  proof -
    obtain ds' s' where r': "run sf_read store es' s = (ds', s')" by force
    have "maxsize (audio_queue s) = 0"
      using inv by (simp add: invar_def)
    from run_dead_worker [OF _ this _ r'] h r' show ?thesis by simp
  qed
  have p3: "case run sf_read store [Stop, Start] s of
             (ds', s') \<Rightarrow>
               playing s' \<and> worker_alive s' \<and> items (audio_queue s') = items (audio_queue s)"
    if "\<not> worker_alive s"
    using that
    by (auto simp: stop_def start_def start_streaming_output_def returned_def Let_def
        split: option.splits)
  have p4: "case run sf_read store [Start] s of
             (ds', s') \<Rightarrow>
               playing s' \<and> worker_alive s' \<and> items (audio_queue s') = items (audio_queue s)"
    if "\<not> worker_alive s"
    using that by (simp add: start_def start_streaming_output_def returned_def)
  have p5: "case run sf_read store (Start # replicate (length (items (audio_queue s))) WorkerIter) s of
             (ds', s') \<Rightarrow>
               items (audio_queue s') = [] \<and>
               audio_data_buffer s' = audio_data_buffer s @ pending sf_read s"
    if h: "\<not> worker_alive s \<and> PyNone \<notin> set (items (audio_queue s))"
  proof -
    have "\<not> worker_alive s" "PyNone \<notin> set (items (audio_queue s))"
      using h by simp_all
    from start_then_worker_iters [OF this, where sf_read = sf_read and store = store]
    show ?thesis by (auto simp del: run.simps replicate.simps split: prod.splits)
  qed
  show ?thesis using r p1 p2 p3 p4 p5
    by (simp del: run.simps replicate.simps)
qed

theorem sentinel_stops_decoding_witness:
  "Running (snd (run reject_all float32 [Start, AddChunk (Bytes [0, 128])] (AudioStreamer 48000)))
   \<and> \<not> worker_alive (snd (run reject_all float32
        [Start, AddChunk (Bytes [0, 128]), AddChunk PyNone, WorkerIter, WorkerIter]
        (AudioStreamer 48000)))
   \<and> playing (snd (run reject_all float32
        [Start, AddChunk (Bytes [0, 128]), AddChunk PyNone, WorkerIter, WorkerIter]
        (AudioStreamer 48000)))
   \<and> audio_data_buffer (snd (run reject_all float32
        [Start, AddChunk PyNone, WorkerIter, AddChunk (Bytes [0, 128]), WorkerIter, Stop, WorkerIter]
        (AudioStreamer 48000))) = []
   \<and> audio_data_buffer (snd (run reject_all float32
        [Start, AddChunk PyNone, WorkerIter, AddChunk (Bytes [0, 128]), Stop, Start, WorkerIter]
        (AudioStreamer 48000))) = [- 1]"
  using sentinel_stops_decoding [where sf_read = reject_all and store = float32 and rate = 48000
      and es = "[Start, AddChunk (Bytes [0, 128])]" and es' = "[]"]
    sentinel_stops_decoding [where sf_read = reject_all and store = float32 and rate = 48000
      and es = "[Start, AddChunk PyNone, WorkerIter]"
      and es' = "[AddChunk (Bytes [0, 128]), WorkerIter, Stop, WorkerIter]"]
    sentinel_stops_decoding [where sf_read = reject_all and store = float32 and rate = 48000
      and es = "[Start, AddChunk PyNone, WorkerIter, AddChunk (Bytes [0, 128]), Stop]"
      and es' = "[]"]
  by (simp add: exec_defs spec_defs)

text \<open>
  The claim C10 as stated has decoding resume only after a \<open>stop\<close> and a \<open>start\<close>. With
  the worker dead after a \<open>None\<close>, a chunk submitted next is decoded after a \<open>start\<close>
  alone, in a run without any \<open>stop\<close>.
\<close>

theorem bare_start_resumes_decoding:
  "\<not> worker_alive (snd (run reject_all float32 [Start, AddChunk PyNone, WorkerIter]
        (AudioStreamer 48000)))
   \<and> playing (snd (run reject_all float32 [Start, AddChunk PyNone, WorkerIter]
        (AudioStreamer 48000)))
   \<and> Stop \<notin> set [Start, AddChunk PyNone, WorkerIter, AddChunk (Bytes [0, 128]), Start, WorkerIter]
   \<and> audio_data_buffer (snd (run reject_all float32
        [Start, AddChunk PyNone, WorkerIter, AddChunk (Bytes [0, 128]), Start, WorkerIter]
        (AudioStreamer 48000))) = [- 1]"
  by (simp add: exec_defs spec_defs)

end
